theory Spec2Isabelle
  imports Main "HOL-Library.Sublist"
begin

section \<open>The webhook notifier of pocket-id (backend/internal/service/webhook\_service.go)\<close>

text \<open>
  Go strings are byte sequences; they are modelled as \<^typ>\<open>string\<close>, one \<^typ>\<open>char\<close> per byte.
  A byte is read as a number with \<^term>\<open>of_char\<close>; bytes from 128 on belong to the UTF-8
  encoding of a non-ASCII rune.
\<close>

subsection \<open>The functions of package strings that the service calls\<close>

text \<open>
  \<open>strings.Index(s, substr)\<close>: the position of the first occurrence of \<open>substr\<close> in \<open>s\<close>;
  Go's \<open>-1\<close> is \<open>None\<close>. \<open>strings.Contains(s, substr)\<close> is \<open>Index(s, substr) >= 0\<close>.
\<close>

fun Index :: "string \<Rightarrow> string \<Rightarrow> nat option" where
  "Index [] substr = (if substr = [] then Some 0 else None)"
| "Index (c # s) substr =
     (if prefix substr (c # s) then Some 0 else map_option Suc (Index s substr))"

definition Contains :: "string \<Rightarrow> string \<Rightarrow> bool" where
  "Contains s substr = (Index s substr \<noteq> None)"

text \<open>
  \<open>strings.Split(s, sep)\<close> for a separator of one byte, which is the only form the service
  uses (\<open>","\<close> and \<open>"_"\<close>). Go's loop cuts \<open>s\<close> at the first separator, keeps the piece before
  it and goes on behind it; the rest without a separator is the last piece. The empty
  string gives one empty piece.
\<close>

function Split :: "string \<Rightarrow> char \<Rightarrow> string list" where
  "Split s sep =
     (case dropWhile (\<lambda>c. c \<noteq> sep) s of
        [] \<Rightarrow> [s]
      | _ # rest \<Rightarrow> takeWhile (\<lambda>c. c \<noteq> sep) s # Split rest sep)"
  by pat_completeness auto
termination
proof (relation "measure (\<lambda>(s, sep). length s)")
  show "wf (measure (\<lambda>(s, sep). length s))" by simp
next
  fix s :: string and sep :: char and x rest
  assume "dropWhile (\<lambda>c. c \<noteq> sep) s = x # rest"
  then have "length (x # rest) \<le> length s"
    by (metis length_dropWhile_le)
  then show "((rest, sep), (s, sep)) \<in> measure (\<lambda>(s, sep). length s)"
    by simp
qed

declare Split.simps [simp del]

text \<open>\<open>strings.Join(elems, sep)\<close>.\<close>

fun Join :: "string list \<Rightarrow> string \<Rightarrow> string" where
  "Join [] sep = []"
| "Join [w] sep = w"
| "Join (w # v # ws) sep = w @ sep @ Join (v # ws) sep"

text \<open>
  \<open>strings.TrimSpace(s)\<close> removes the leading and the trailing white space, as
  \<open>unicode.IsSpace\<close> defines it, rune by rune. On a byte string these runes are the byte
  sequences below: the six ASCII ones (tab, line feed, vertical tab, form feed, carriage
  return, space) and the UTF-8 encodings of U+0085, U+00A0, U+1680, U+2000 to U+200A,
  U+2028, U+2029, U+202F, U+205F and U+3000. Go's decoder accepts no other encoding of
  these runes, and none of the sequences is the end of another, so stripping from the
  back is stripping the reversed sequences from the reversed string.
\<close>

definition spaceRunes :: "string list" where
  "spaceRunes =
     [[CHR 0x09], [CHR 0x0A], [CHR 0x0B], [CHR 0x0C], [CHR 0x0D], [CHR 0x20],
      [CHR 0xC2, CHR 0x85], [CHR 0xC2, CHR 0xA0],
      [CHR 0xE1, CHR 0x9A, CHR 0x80],
      [CHR 0xE2, CHR 0x80, CHR 0x80], [CHR 0xE2, CHR 0x80, CHR 0x81],
      [CHR 0xE2, CHR 0x80, CHR 0x82], [CHR 0xE2, CHR 0x80, CHR 0x83],
      [CHR 0xE2, CHR 0x80, CHR 0x84], [CHR 0xE2, CHR 0x80, CHR 0x85],
      [CHR 0xE2, CHR 0x80, CHR 0x86], [CHR 0xE2, CHR 0x80, CHR 0x87],
      [CHR 0xE2, CHR 0x80, CHR 0x88], [CHR 0xE2, CHR 0x80, CHR 0x89],
      [CHR 0xE2, CHR 0x80, CHR 0x8A],
      [CHR 0xE2, CHR 0x80, CHR 0xA8], [CHR 0xE2, CHR 0x80, CHR 0xA9],
      [CHR 0xE2, CHR 0x80, CHR 0xAF],
      [CHR 0xE2, CHR 0x81, CHR 0x9F],
      [CHR 0xE3, CHR 0x80, CHR 0x80]]"

text \<open>The number of bytes of the sequence of \<open>runes\<close> that \<open>s\<close> starts with; 0 if none.\<close>

definition leadingWidth :: "string list \<Rightarrow> string \<Rightarrow> nat" where
  "leadingWidth runes s =
     (case find (\<lambda>r. r \<noteq> [] \<and> prefix r s) runes of None \<Rightarrow> 0 | Some r \<Rightarrow> length r)"

function trimLeading :: "string list \<Rightarrow> string \<Rightarrow> string" where
  "trimLeading runes s =
     (if leadingWidth runes s = 0 then s
      else trimLeading runes (drop (leadingWidth runes s) s))"
  by pat_completeness auto
termination
proof (relation "measure (\<lambda>(runes, s). length s)")
  show "wf (measure (\<lambda>(runes, s). length s))" by simp
next
  fix runes :: "string list" and s :: string
  assume pos: "leadingWidth runes s \<noteq> 0"
  then obtain r where "find (\<lambda>r. r \<noteq> [] \<and> prefix r s) runes = Some r"
    by (auto simp: leadingWidth_def split: option.splits)
  then have "r \<noteq> [] \<and> prefix r s"
    by (auto simp: find_Some_iff)
  then have "s \<noteq> []" by auto
  with pos show "((runes, drop (leadingWidth runes s) s), (runes, s))
      \<in> measure (\<lambda>(runes, s). length s)"
    by simp
qed

declare trimLeading.simps [simp del]

definition TrimSpace :: "string \<Rightarrow> string" where
  "TrimSpace s =
     rev (trimLeading (map rev spaceRunes) (rev (trimLeading spaceRunes s)))"

text \<open>
  \<open>strings.ToUpper(s)\<close> and \<open>strings.ToLower(s)\<close>. When every byte of \<open>s\<close> is ASCII, Go maps
  the bytes \<open>a..z\<close> (or \<open>A..Z\<close>) and copies the others. Otherwise it returns
  \<open>strings.Map(unicode.ToUpper, s)\<close> (or \<open>unicode.ToLower\<close>), which decodes UTF-8 and
  consults the Unicode case tables; that result is a parameter of the model, a field of
  the record \<open>stdlib\<close>.

  The record holds what the Go standard library and the run-time environment supply and
  the repository does not define. An instant (\<open>time.Time\<close>) is an integer;
  \<open>FormatRFC3339 t\<close> is \<open>t.UTC().Format(time.RFC3339)\<close>, \<open>Now\<close> is what \<open>time.Now()\<close>
  returns, and \<open>NewRequestError url\<close> is the error of \<open>http.NewRequestWithContext\<close> for
  the method POST and that URL (\<open>None\<close> when the request is built).
\<close>

type_synonym time = int

record stdlib =
  MapToUpper :: "string \<Rightarrow> string"
  MapToLower :: "string \<Rightarrow> string"
  FormatRFC3339 :: "time \<Rightarrow> string"
  Now :: time
  NewRequestError :: "string \<Rightarrow> string option"

definition isASCII :: "string \<Rightarrow> bool" where
  "isASCII s = list_all (\<lambda>c. (of_char c :: nat) < 128) s"

definition upperByte :: "char \<Rightarrow> char" where
  "upperByte c =
     (let n = (of_char c :: nat) in if 97 \<le> n \<and> n \<le> 122 then char_of (n - 32) else c)"

definition lowerByte :: "char \<Rightarrow> char" where
  "lowerByte c =
     (let n = (of_char c :: nat) in if 65 \<le> n \<and> n \<le> 90 then char_of (n + 32) else c)"

definition ToUpper :: "stdlib \<Rightarrow> string \<Rightarrow> string" where
  "ToUpper U s = (if isASCII s then map upperByte s else MapToUpper U s)"

definition ToLower :: "stdlib \<Rightarrow> string \<Rightarrow> string" where
  "ToLower U s = (if isASCII s then map lowerByte s else MapToLower U s)"

subsection \<open>The formatters\<close>

text \<open>
  \<open>formatEventTitle\<close>: the loop \<open>for i, w := range words\<close> overwrites \<open>words[i]\<close> in place;
  \<open>w[:1]\<close> is the first byte of the word and \<open>w[1:]\<close> the rest.
\<close>

function titleWords :: "stdlib \<Rightarrow> string list \<Rightarrow> nat \<Rightarrow> string list" where
  "titleWords U words i =
     (if i < length words then
        (let w = words ! i in
         if length w > 0
         then titleWords U (words[i := ToUpper U (take 1 w) @ ToLower U (drop 1 w)]) (Suc i)
         else titleWords U words (Suc i))
      else words)"
  by pat_completeness auto
termination
  by (relation "measure (\<lambda>(U, words, i). length words - i)") auto

declare titleWords.simps [simp del]

definition formatEventTitle :: "stdlib \<Rightarrow> string \<Rightarrow> string" where
  "formatEventTitle U event = Join (titleWords U (Split event CHR ''_'') 0) '' ''"

definition formatLocation :: "string \<Rightarrow> string \<Rightarrow> string" where
  "formatLocation country city =
     (if country = [] \<and> city = [] then []
      else if city = [] then country
      else if country = [] then city
      else city @ '', '' @ country)"

definition valueOrDash :: "string \<Rightarrow> string" where
  "valueOrDash v = (if v = [] then ''-'' else v)"

subsection \<open>Payload types and their JSON encoding\<close>

record webhookEmbedField =
  Name :: string
  Value :: string
  Inline :: bool

record webhookEmbed =
  Title :: string
  Color :: int
  Fields :: "webhookEmbedField list"
  Timestamp :: string

record webhookPayload =
  Content :: string
  Embeds :: "webhookEmbed list"
  Attachments :: "webhookEmbed list"

text \<open>
  \<open>json.Marshal\<close> is modelled up to the JSON value it writes: an object is the list of its
  keys and values in the order of the struct's fields. A field tagged \<open>omitempty\<close> is left
  out when it is the empty string or a slice of length 0 (nil or not). For these struct
  types \<open>json.Marshal\<close> has no failing case, so the model always returns \<open>Inr\<close>; the
  result type keeps the error that \<open>sendPayload\<close> tests for.
\<close>

datatype json =
  JString string
| JNumber int
| JBool bool
| JArray "json list"
| JObject "(string \<times> json) list"

definition marshalField :: "webhookEmbedField \<Rightarrow> json" where
  "marshalField f =
     JObject [(''name'', JString (Name f)), (''value'', JString (Value f)),
              (''inline'', JBool (Inline f))]"

definition marshalEmbed :: "webhookEmbed \<Rightarrow> json" where
  "marshalEmbed e =
     JObject [(''title'', JString (Title e)), (''color'', JNumber (Color e)),
              (''fields'', JArray (map marshalField (Fields e))),
              (''timestamp'', JString (Timestamp e))]"

definition omitempty :: "string \<Rightarrow> bool \<Rightarrow> json \<Rightarrow> (string \<times> json) list" where
  "omitempty key isEmpty v = (if isEmpty then [] else [(key, v)])"

definition Marshal :: "webhookPayload \<Rightarrow> string + json" where
  "Marshal p =
     Inr (JObject
       (omitempty ''content'' (Content p = []) (JString (Content p)) @
        omitempty ''embeds'' (Embeds p = []) (JArray (map marshalEmbed (Embeds p))) @
        omitempty ''attachments'' (Attachments p = [])
          (JArray (map marshalEmbed (Attachments p)))))"

text \<open>The keys of a JSON object (none for any other value).\<close>

definition jsonKeys :: "json \<Rightarrow> string list" where
  "jsonKeys j = (case j of JObject kvs \<Rightarrow> map fst kvs | _ \<Rightarrow> [])"

definition hasKey :: "string \<Rightarrow> json \<Rightarrow> bool" where
  "hasKey k j = (k \<in> set (jsonKeys j))"

subsection \<open>Configuration, HTTP client, errors and the observable effects\<close>

text \<open>
  \<open>AppConfig\<close> is the snapshot \<open>GetDbConfig()\<close> returns; the two fields are the \<open>Value\<close>s
  of \<open>cfg.WebhookUrl\<close> and \<open>cfg.WebhookEvents\<close>. \<open>httpClient\<close> is \<open>httpClient.Do\<close>: for a
  request, a transport error (\<open>Inl\<close>) or the response.
\<close>

record AppConfig =
  WebhookUrl :: string
  WebhookEvents :: string

record request =
  Method :: string
  URL :: string
  ContentType :: string
  Body :: json

record response =
  StatusCode :: int

record WebhookService =
  appConfigService :: AppConfig
  httpClient :: "request \<Rightarrow> string + response"

datatype webhookError =
  NotConfigured
| MarshalFailed string
| CreateRequestFailed string
| SendRequestFailed string
| NonSuccessStatus int

text \<open>The decimal digits of \<open>%d\<close>.\<close>

function digits :: "nat \<Rightarrow> string" where
  "digits n =
     (if n < 10 then [char_of (48 + n)] else digits (n div 10) @ [char_of (48 + n mod 10)])"
  by pat_completeness auto
termination
  by (relation "measure id") auto

declare digits.simps [simp del]

definition itoa :: "int \<Rightarrow> string" where
  "itoa i = (if i < 0 then ''-'' @ digits (nat (- i)) else digits (nat i))"

text \<open>The text of each error, as \<open>fmt.Errorf\<close> builds it.\<close>

fun errorString :: "webhookError \<Rightarrow> string" where
  "errorString NotConfigured = ''webhook URL is not configured''"
| "errorString (MarshalFailed e) = ''failed to marshal webhook payload: '' @ e"
| "errorString (CreateRequestFailed e) = ''failed to create webhook request: '' @ e"
| "errorString (SendRequestFailed e) = ''failed to send webhook request: '' @ e"
| "errorString (NonSuccessStatus code) =
     ''webhook returned non-success status: '' @ itoa code"

text \<open>
  What a run leaves behind: the requests handed to \<open>httpClient.Do\<close>, in order, and the
  entries written with \<open>slog.ErrorContext\<close>.
\<close>

record logEntry =
  Msg :: string
  ErrorAttr :: webhookError
  EventAttr :: string

record world =
  calls :: "request list"
  logs :: "logEntry list"

text \<open>
  The audit log entry (\<open>model.AuditLog\<close>), with the fields the service reads.
  \<open>IpAddress\<close> is a \<open>*string\<close>. \<open>Data\<close> is a Go map from strings to strings: it is given as
  the list of its entries in the order in which \<open>range\<close> yields them in this run, so its
  keys are distinct and any order of the entries is possible.
\<close>

record AuditLog =
  Event :: string
  Username :: string
  IpAddress :: "string option"
  Country :: string
  City :: string
  UserAgent :: string
  CreatedAt :: time
  Data :: "(string \<times> string) list"

subsection \<open>The service\<close>

fun anyAllowed :: "string list \<Rightarrow> string \<Rightarrow> bool" where
  "anyAllowed [] event = False"
| "anyAllowed (allowed # rest) event =
     (if TrimSpace allowed = event then True else anyAllowed rest event)"

definition isEventAllowed :: "WebhookService \<Rightarrow> string \<Rightarrow> bool" where
  "isEventAllowed s event =
     (let eventsFilter = WebhookEvents (appConfigService s) in
      if eventsFilter = [] then True
      else anyAllowed (Split eventsFilter CHR '','') event)"

definition finalPayload :: "string \<Rightarrow> webhookPayload \<Rightarrow> webhookPayload" where
  "finalPayload webhookURL payload =
     (if Contains webhookURL ''hooks.slack.com''
      then payload\<lparr>Attachments := Embeds payload, Embeds := []\<rparr>
      else payload)"

definition sendPayload ::
  "stdlib \<Rightarrow> WebhookService \<Rightarrow> string \<Rightarrow> webhookPayload \<Rightarrow> world
     \<Rightarrow> webhookError option \<times> world" where
  "sendPayload L s webhookURL payload w =
     (case Marshal (finalPayload webhookURL payload) of
        Inl err \<Rightarrow> (Some (MarshalFailed err), w)
      | Inr body \<Rightarrow>
          (case NewRequestError L webhookURL of
             Some err \<Rightarrow> (Some (CreateRequestFailed err), w)
           | None \<Rightarrow>
               (let req = \<lparr>Method = ''POST'', URL = webhookURL,
                            ContentType = ''application/json'', Body = body\<rparr>;
                    w' = w\<lparr>calls := calls w @ [req]\<rparr>
                in case httpClient s req of
                     Inl err \<Rightarrow> (Some (SendRequestFailed err), w')
                   | Inr resp \<Rightarrow>
                       if StatusCode resp < 200 \<or> StatusCode resp \<ge> 300
                       then (Some (NonSuccessStatus (StatusCode resp)), w')
                       else (None, w'))))"

definition testPayload :: "stdlib \<Rightarrow> webhookPayload" where
  "testPayload L =
     \<lparr>Content = [],
      Embeds = [\<lparr>Title = ''Test Webhook'', Color = 5814783,
                 Fields = [\<lparr>Name = ''Status'', Value = ''Connection successful'',
                              Inline = False\<rparr>,
                           \<lparr>Name = ''Source'', Value = ''Pocket ID'', Inline = True\<rparr>],
                 Timestamp = FormatRFC3339 L (Now L)\<rparr>],
      Attachments = []\<rparr>"

definition SendTestWebhook ::
  "stdlib \<Rightarrow> WebhookService \<Rightarrow> world \<Rightarrow> webhookError option \<times> world" where
  "SendTestWebhook L s w =
     (let webhookURL = WebhookUrl (appConfigService s) in
      if webhookURL = [] then (Some NotConfigured, w)
      else sendPayload L s webhookURL (testPayload L) w)"

text \<open>
  \<open>SendEvent\<close>, lines 64 to 85: the payload with the four fixed fields. Lines 88 to 94:
  the loop over \<open>auditLog.Data\<close>, each turn appending to \<open>payload.Embeds[0].Fields\<close>;
  indexing an empty \<open>Embeds\<close> is Go's run-time panic, \<open>None\<close> here.
\<close>

definition fixedPayload :: "stdlib \<Rightarrow> AuditLog \<Rightarrow> webhookPayload" where
  "fixedPayload L auditLog =
     (let ipAddress = (case IpAddress auditLog of None \<Rightarrow> [] | Some ip \<Rightarrow> ip);
          location = formatLocation (Country auditLog) (City auditLog)
      in \<lparr>Content = [],
          Embeds = [\<lparr>Title = formatEventTitle L (Event auditLog), Color = 5814783,
                     Fields = [\<lparr>Name = ''User'', Value = valueOrDash (Username auditLog),
                                  Inline = True\<rparr>,
                               \<lparr>Name = ''IP Address'', Value = valueOrDash ipAddress,
                                  Inline = True\<rparr>,
                               \<lparr>Name = ''Location'', Value = valueOrDash location,
                                  Inline = True\<rparr>,
                               \<lparr>Name = ''Device'', Value = valueOrDash (UserAgent auditLog),
                                  Inline = True\<rparr>],
                     Timestamp = FormatRFC3339 L (CreatedAt auditLog)\<rparr>],
          Attachments = []\<rparr>)"

definition appendField :: "webhookPayload \<Rightarrow> webhookEmbedField \<Rightarrow> webhookPayload option" where
  "appendField payload f =
     (case Embeds payload of
        [] \<Rightarrow> None
      | e # es \<Rightarrow> Some (payload\<lparr>Embeds := e\<lparr>Fields := Fields e @ [f]\<rparr> # es\<rparr>))"

fun appendData :: "webhookPayload \<Rightarrow> (string \<times> string) list \<Rightarrow> webhookPayload option" where
  "appendData payload [] = Some payload"
| "appendData payload ((k, v) # rest) =
     (case appendField payload \<lparr>Name = k, Value = valueOrDash v, Inline = True\<rparr> of
        None \<Rightarrow> None
      | Some payload' \<Rightarrow> appendData payload' rest)"

definition eventPayload :: "stdlib \<Rightarrow> AuditLog \<Rightarrow> webhookPayload option" where
  "eventPayload L auditLog = appendData (fixedPayload L auditLog) (Data auditLog)"

text \<open>
  \<open>SendEvent\<close> returns nothing; its result is the world it leaves, or \<open>None\<close> for a panic.
\<close>

definition SendEvent :: "stdlib \<Rightarrow> WebhookService \<Rightarrow> AuditLog \<Rightarrow> world \<Rightarrow> world option" where
  "SendEvent L s auditLog w =
     (let webhookURL = WebhookUrl (appConfigService s) in
      if webhookURL = [] then Some w
      else if \<not> isEventAllowed s (Event auditLog) then Some w
      else
        (case eventPayload L auditLog of
           None \<Rightarrow> None
         | Some payload \<Rightarrow>
             (case sendPayload L s webhookURL payload w of
                (Some err, w') \<Rightarrow>
                  Some (w'\<lparr>logs := logs w' @
                    [\<lparr>Msg = ''Failed to send webhook'', ErrorAttr = err,
                      EventAttr = Event auditLog\<rparr>]\<rparr>)
              | (None, w') \<Rightarrow> Some w')))"

subsection \<open>Derived views of the payload\<close>

text \<open>
  The four fixed fields of lines 77 to 80, the field one turn of the loop appends, and
  the fields of the payload \<open>SendEvent\<close> builds (of its one embed).
\<close>

definition fixedFields :: "AuditLog \<Rightarrow> webhookEmbedField list" where
  "fixedFields a =
     [\<lparr>Name = ''User'', Value = valueOrDash (Username a), Inline = True\<rparr>,
      \<lparr>Name = ''IP Address'', Value = valueOrDash (case IpAddress a of None \<Rightarrow> [] | Some ip \<Rightarrow> ip), Inline = True\<rparr>,
      \<lparr>Name = ''Location'', Value = valueOrDash (formatLocation (Country a) (City a)), Inline = True\<rparr>,
      \<lparr>Name = ''Device'', Value = valueOrDash (UserAgent a), Inline = True\<rparr>]"

definition dataField :: "string \<times> string \<Rightarrow> webhookEmbedField" where
  "dataField kv = \<lparr>Name = fst kv, Value = valueOrDash (snd kv), Inline = True\<rparr>"

definition eventFields :: "stdlib \<Rightarrow> AuditLog \<Rightarrow> webhookEmbedField list" where
  "eventFields L a =
     (case eventPayload L a of None \<Rightarrow> [] | Some p \<Rightarrow> concat (map Fields (Embeds p)))"

subsection \<open>The wording of the specification\<close>

text \<open>
  A word of a title as the specification describes it: the first letter in upper case, the
  rest in lower case, the empty word unchanged. The first letter is the first byte, as in
  \<open>w[:1]\<close>. \<open>capitalizeASCII\<close> is the same for a word of ASCII bytes, where the case
  mapping is that of the bytes.
\<close>

fun capitalizeWord :: "stdlib \<Rightarrow> string \<Rightarrow> string" where
  "capitalizeWord U [] = []"
| "capitalizeWord U (c # cs) = ToUpper U [c] @ ToLower U cs"

fun capitalizeASCII :: "string \<Rightarrow> string" where
  "capitalizeASCII [] = []"
| "capitalizeASCII (c # cs) = upperByte c # map lowerByte cs"

text \<open>
  The host of an absolute URL, for the statement about detection by substring: what stands
  between \<open>://\<close> and the next \<open>/\<close>, \<open>?\<close> or \<open>#\<close>. The service itself never computes it.
\<close>

definition urlHost :: "string \<Rightarrow> string" where
  "urlHost url =
     (case Index url ''://'' of
        None \<Rightarrow> []
      | Some i \<Rightarrow> takeWhile (\<lambda>c. c \<notin> set ''/?#'') (drop (i + 3) url))"

subsection \<open>Sample inputs\<close>

text \<open>
  A standard library that leaves non-ASCII strings alone and accepts every URL, a service
  whose destination answers every request with a given status, a world without calls or
  log entries, and two audit log entries.
\<close>

definition plainLib :: stdlib where
  "plainLib =
     \<lparr>MapToUpper = id, MapToLower = id, FormatRFC3339 = (\<lambda>t. ''2024-05-01T12:00:00Z''),
      Now = 0, NewRequestError = (\<lambda>url. None)\<rparr>"

definition sampleService :: "string \<Rightarrow> string \<Rightarrow> int \<Rightarrow> WebhookService" where
  "sampleService url events code =
     \<lparr>appConfigService = \<lparr>WebhookUrl = url, WebhookEvents = events\<rparr>,
      httpClient = (\<lambda>req. Inr \<lparr>StatusCode = code\<rparr>)\<rparr>"

definition quietWorld :: world where
  "quietWorld = \<lparr>calls = [], logs = []\<rparr>"

definition sampleEvent :: AuditLog where
  "sampleEvent =
     \<lparr>Event = ''NEW_CLIENT_AUTHORIZATION'', Username = ''alice'', IpAddress = Some ''203.0.113.7'',
      Country = ''US'', City = ''Paris'', UserAgent = [], CreatedAt = 0,
      Data = [(''clientName'', ''Wiki''), (''scope'', [])]\<rparr>"

definition blankEvent :: AuditLog where
  "blankEvent =
     \<lparr>Event = ''SIGN_IN'', Username = ''alice'', IpAddress = None,
      Country = [], City = [], UserAgent = ''curl'', CreatedAt = 0, Data = []\<rparr>"

section \<open>Properties of the library functions\<close>

text \<open>
  \<open>Split\<close> is characterised by three facts: it returns at least one piece, no piece holds
  the separator, and joining the pieces with the separator gives the string back.
\<close>

lemma Split_last: "dropWhile (\<lambda>c. c \<noteq> sep) s = [] \<Longrightarrow> Split s sep = [s]"
  by (subst Split.simps) (simp del: dropWhile_eq_Nil_conv)

lemma Split_cut:
  "dropWhile (\<lambda>c. c \<noteq> sep) s = x # rest \<Longrightarrow>
   Split s sep = takeWhile (\<lambda>c. c \<noteq> sep) s # Split rest sep"
  by (subst Split.simps) simp

lemma Split_nonempty: "Split s sep \<noteq> []"
  by (subst Split.simps) (simp split: list.splits)

lemma Split_no_sep: "w \<in> set (Split s sep) \<Longrightarrow> sep \<notin> set w"
proof (induction s sep rule: Split.induct)
  case (1 s sep)
  show ?case
  proof (cases "dropWhile (\<lambda>c. c \<noteq> sep) s")
    case Nil
    then have "Split s sep = [s]" by (simp only: Split_last)
    moreover from Nil have "sep \<notin> set s" by (auto simp: dropWhile_eq_Nil_conv)
    ultimately show ?thesis using "1.prems" by simp
  next
    case (Cons x rest)
    then have eq: "Split s sep = takeWhile (\<lambda>c. c \<noteq> sep) s # Split rest sep"
      by (simp only: Split_cut)
    have "sep \<notin> set (takeWhile (\<lambda>c. c \<noteq> sep) s)"
      by (auto dest: set_takeWhileD)
    with eq "1.prems" "1.IH"[OF Cons] show ?thesis by auto
  qed
qed

lemma Split_subset: "w \<in> set (Split s sep) \<Longrightarrow> set w \<subseteq> set s"
proof (induction s sep rule: Split.induct)
  case (1 s sep)
  show ?case
  proof (cases "dropWhile (\<lambda>c. c \<noteq> sep) s")
    case Nil
    then have "Split s sep = [s]" by (simp only: Split_last)
    then show ?thesis using "1.prems" by simp
  next
    case (Cons x rest)
    then have eq: "Split s sep = takeWhile (\<lambda>c. c \<noteq> sep) s # Split rest sep"
      by (simp only: Split_cut)
    have a: "set (takeWhile (\<lambda>c. c \<noteq> sep) s) \<subseteq> set s"
      by (auto dest: set_takeWhileD)
    have "set rest \<subseteq> set (dropWhile (\<lambda>c. c \<noteq> sep) s)" using Cons by auto
    then have b: "set rest \<subseteq> set s" using set_dropWhileD by fastforce
    from eq "1.prems" "1.IH"[OF Cons] a b show ?thesis by auto
  qed
qed

lemma Join_Cons: "ws \<noteq> [] \<Longrightarrow> Join (w # ws) sep = w @ sep @ Join ws sep"
  by (cases ws) simp_all

lemma dropWhile_sep:
  assumes "dropWhile (\<lambda>c. c \<noteq> sep) s = x # rest"
  shows "takeWhile (\<lambda>c. c \<noteq> sep) s @ sep # rest = s"
proof -
  have "\<not> (\<lambda>c. c \<noteq> sep) (hd (dropWhile (\<lambda>c. c \<noteq> sep) s))"
    by (rule hd_dropWhile) (simp add: assms)
  then have "x = sep" by (simp add: assms)
  then have "takeWhile (\<lambda>c. c \<noteq> sep) s @ sep # rest =
      takeWhile (\<lambda>c. c \<noteq> sep) s @ dropWhile (\<lambda>c. c \<noteq> sep) s"
    by (simp only: assms)
  then show ?thesis by (simp only: takeWhile_dropWhile_id)
qed

lemma Split_Join: "Join (Split s sep) [sep] = s"
proof (induction s sep rule: Split.induct)
  case (1 s sep)
  show ?case
  proof (cases "dropWhile (\<lambda>c. c \<noteq> sep) s")
    case Nil
    then have "Split s sep = [s]" by (simp only: Split_last)
    then show ?thesis by simp
  next
    case (Cons x rest)
    then have eq: "Split s sep = takeWhile (\<lambda>c. c \<noteq> sep) s # Split rest sep"
      by (simp only: Split_cut)
    have "Join (Split s sep) [sep] =
        takeWhile (\<lambda>c. c \<noteq> sep) s @ [sep] @ Join (Split rest sep) [sep]"
      unfolding eq by (rule Join_Cons) (rule Split_nonempty)
    also have "\<dots> = takeWhile (\<lambda>c. c \<noteq> sep) s @ sep # rest"
      by (simp only: "1.IH"[OF Cons] append_Cons append_Nil)
    also have "\<dots> = s"
      using Cons by (rule dropWhile_sep)
    finally show ?thesis .
  qed
qed

lemma Split_examples:
  "Split ''TOKEN_SIGN_IN, SIGN_IN'' CHR '','' = [''TOKEN_SIGN_IN'', '' SIGN_IN'']"
  "Split ''TOKEN_SIGN_IN'' CHR '','' = [''TOKEN_SIGN_IN'']"
  "Split ''sign_in'' CHR '','' = [''sign_in'']"
  by code_simp+

text \<open>
  \<open>Contains\<close> holds exactly when the substring stands somewhere in the string.
\<close>

lemma Index_None_iff: "(Index s substr = None) = (\<not> sublist substr s)"
  by (induction s) (simp_all add: sublist_Cons_right)

lemma Contains_iff: "Contains s substr = (\<exists>a b. s = a @ substr @ b)"
  unfolding Contains_def Index_None_iff sublist_def by simp

text \<open>
  Trimming keeps a contiguous piece of the string and leaves no white space at the front.
\<close>

lemma trimLeading_suffix: "suffix (trimLeading runes s) s"
proof (induction runes s rule: trimLeading.induct)
  case (1 runes s)
  show ?case
  proof (cases "leadingWidth runes s = 0")
    case True
    then show ?thesis by (subst trimLeading.simps) simp
  next
    case False
    have "suffix (trimLeading runes (drop (leadingWidth runes s) s)) (drop (leadingWidth runes s) s)"
      using "1.IH"[OF False] .
    then have "suffix (trimLeading runes (drop (leadingWidth runes s) s)) s"
      using suffix_drop suffix_order.trans by blast
    with False show ?thesis by (subst trimLeading.simps) simp
  qed
qed

lemma trimLeading_done: "leadingWidth runes (trimLeading runes s) = 0"
proof (induction runes s rule: trimLeading.induct)
  case (1 runes s)
  show ?case
    using 1 by (subst trimLeading.simps) simp
qed

lemma TrimSpace_sublist: "\<exists>a b. s = a @ TrimSpace s @ b"
proof -
  let ?l = "trimLeading spaceRunes s"
  let ?r = "trimLeading (map rev spaceRunes) (rev ?l)"
  obtain a where a: "s = a @ ?l" using trimLeading_suffix[of spaceRunes s] by (auto simp: suffix_def)
  obtain b where b: "rev ?l = b @ ?r" using trimLeading_suffix[of "map rev spaceRunes" "rev ?l"] by (auto simp: suffix_def)
  then have "?l = rev ?r @ rev b" by (metis rev_append rev_rev_ident)
  with a show ?thesis unfolding TrimSpace_def by (metis)
qed

lemma TrimSpace_examples:
  "TrimSpace ''TOKEN_SIGN_IN'' = ''TOKEN_SIGN_IN''"
  "TrimSpace '' SIGN_IN'' = ''SIGN_IN''"
  "TrimSpace ''sign_in'' = ''sign_in''"
  by code_simp+

text \<open>
  \<open>digits\<close> writes a number in base ten.
\<close>

lemma digits_value: "foldl (\<lambda>acc c. 10 * acc + (of_char c - 48)) 0 (digits n) = n"
proof (induction n rule: digits.induct)
  case (1 n)
  show ?case
  proof (cases "n < 10")
    case True
    then show ?thesis by (subst digits.simps) simp
  next
    case False
    then show ?thesis using 1 by (subst digits.simps) simp
  qed
qed

lemma itoa_examples: "itoa 500 = ''500''" "itoa 204 = ''204''"
  by code_simp+

section \<open>Properties of the service\<close>

subsection \<open>The title loop computes a map over the words\<close>

lemma titleWords_eq:
  "titleWords U words i = take i words @ map (capitalizeWord U) (drop i words)"
proof (induction U words i rule: titleWords.induct)
  case (1 U words i)
  show ?case
  proof (cases "i < length words")
    case False
    then show ?thesis by (subst titleWords.simps) simp
  next
    case True
    define w where "w = words ! i"
    from True have dr: "drop i words = w # drop (Suc i) words"
      by (simp add: w_def Cons_nth_drop_Suc)
    show ?thesis
    proof (cases "length w > 0")
      case False
      then have "w = []" by simp
      moreover have "titleWords U words i = titleWords U words (Suc i)"
        using True False by (subst titleWords.simps) (simp add: w_def)
      moreover have "titleWords U words (Suc i) =
          take (Suc i) words @ map (capitalizeWord U) (drop (Suc i) words)"
        using "1.IH"(2)[OF True w_def] False by simp
      moreover have "take (Suc i) words = take i words @ [w]"
        using True by (simp add: w_def take_Suc_conv_app_nth)
      ultimately show ?thesis by (simp add: dr)
    next
      case pos: True
      then obtain c cs where w: "w = c # cs" by (cases w) auto
      let ?w' = "ToUpper U (take 1 w) @ ToLower U (drop 1 w)"
      have cap: "?w' = capitalizeWord U w" by (simp add: w)
      have "titleWords U words i = titleWords U (words[i := ?w']) (Suc i)"
        using True pos by (subst titleWords.simps) (simp add: w_def Let_def)
      also have "\<dots> = take (Suc i) (words[i := ?w']) @
          map (capitalizeWord U) (drop (Suc i) (words[i := ?w']))"
        using "1.IH"(1)[OF True w_def pos] .
      also have "take (Suc i) (words[i := ?w']) = take i words @ [?w']"
        using True by (simp add: take_Suc_conv_app_nth)
      also have "drop (Suc i) (words[i := ?w']) = drop (Suc i) words"
        by simp
      finally have "titleWords U words i =
          (take i words @ [?w']) @ map (capitalizeWord U) (drop (Suc i) words)" .
      then show ?thesis unfolding cap dr by simp
    qed
  qed
qed

lemma formatEventTitle_eq:
  "formatEventTitle U event = Join (map (capitalizeWord U) (Split event CHR ''_'')) '' ''"
  by (simp add: formatEventTitle_def titleWords_eq)

lemma isASCII_set: "isASCII s = (\<forall>c \<in> set s. (of_char c :: nat) < 128)"
  by (simp add: isASCII_def list_all_iff)

lemma capitalizeWord_ASCII: "isASCII w \<Longrightarrow> capitalizeWord U w = capitalizeASCII w"
  by (cases w) (simp_all add: ToUpper_def ToLower_def isASCII_def)

lemma formatEventTitle_ASCII:
  assumes "isASCII event"
  shows "formatEventTitle U event = Join (map capitalizeASCII (Split event CHR ''_'')) '' ''"
proof -
  have "\<forall>w \<in> set (Split event CHR ''_''). isASCII w"
    using assms Split_subset by (fastforce simp: isASCII_set)
  then have "map (capitalizeWord U) (Split event CHR ''_'') = map capitalizeASCII (Split event CHR ''_'')"
    by (simp add: capitalizeWord_ASCII)
  then show ?thesis by (simp only: formatEventTitle_eq)
qed

lemma title_examples:
  "isASCII ''SIGN_IN''"
  "isASCII ''NEW_CLIENT_AUTHORIZATION''"
  "Join (map capitalizeASCII (Split ''SIGN_IN'' CHR ''_'')) '' '' = ''Sign In''"
  "Join (map capitalizeASCII (Split ''NEW_CLIENT_AUTHORIZATION'' CHR ''_'')) '' '' =
     ''New Client Authorization''"
  by code_simp+

lemma title_gap: "Join (map capitalizeASCII (Split ''sign__in_'' CHR ''_'')) '' '' = ''Sign  In ''"
  by code_simp

subsection \<open>The filter loop is a membership test\<close>

lemma anyAllowed_iff: "anyAllowed entries event = (event \<in> set (map TrimSpace entries))"
  by (induction entries) auto

subsection \<open>The payload of an event\<close>

text \<open>
  The loop over \<open>Data\<close> never panics: the payload it starts from has one embed. The
  payload \<open>SendEvent\<close> sends is the fixed fields followed by one field per entry.
\<close>

lemma appendData_fields:
  "Embeds p = e # es \<Longrightarrow>
   appendData p kvs = Some (p\<lparr>Embeds := e\<lparr>Fields := Fields e @ map dataField kvs\<rparr> # es\<rparr>)"
proof (induction kvs arbitrary: p e)
  case Nil
  then show ?case by simp
next
  case (Cons kv kvs)
  obtain k v where kv: "kv = (k, v)" by (cases kv)
  let ?p' = "p\<lparr>Embeds := e\<lparr>Fields := Fields e @ [dataField kv]\<rparr> # es\<rparr>"
  have "appendField p \<lparr>Name = k, Value = valueOrDash v, Inline = True\<rparr> = Some ?p'"
    using Cons.prems by (simp add: appendField_def dataField_def kv)
  moreover have "appendData ?p' kvs =
      Some (?p'\<lparr>Embeds := (e\<lparr>Fields := Fields e @ [dataField kv]\<rparr>)\<lparr>Fields := Fields (e\<lparr>Fields := Fields e @ [dataField kv]\<rparr>) @ map dataField kvs\<rparr> # es\<rparr>)"
    by (rule Cons.IH) simp
  ultimately show ?case by (simp add: kv)
qed

lemma eventPayload_eq:
  "eventPayload L a =
     Some \<lparr>Content = [],
           Embeds = [\<lparr>Title = formatEventTitle L (Event a), Color = 5814783,
                      Fields = fixedFields a @ map dataField (Data a),
                      Timestamp = FormatRFC3339 L (CreatedAt a)\<rparr>],
           Attachments = []\<rparr>"
  unfolding eventPayload_def
  by (subst appendData_fields[where e = "hd (Embeds (fixedPayload L a))" and es = "[]"])
     (simp_all add: fixedPayload_def fixedFields_def Let_def)

lemma eventFields_eq: "eventFields L a = fixedFields a @ map dataField (Data a)"
  by (simp add: eventFields_def eventPayload_eq)

lemma eventPayload_shape:
  "\<exists>p. eventPayload L a = Some p \<and> Embeds p \<noteq> [] \<and> Attachments p = [] \<and> Content p = []"
  by (simp add: eventPayload_eq)

lemma testPayload_shape:
  "Embeds (testPayload L) \<noteq> [] \<and> Attachments (testPayload L) = [] \<and> Content (testPayload L) = []"
  by (simp add: testPayload_def)

lemma dataField_pair:
  "dataField (k, v) = \<lparr>Name = k, Value = (if v = [] then ''-'' else v), Inline = True\<rparr>"
  by (simp add: dataField_def valueOrDash_def)

lemma dataField_split:
  "map dataField kvs =
   map (\<lambda>(k, v). \<lparr>Name = k, Value = (if v = [] then ''-'' else v), Inline = True\<rparr>) kvs"
  by (rule map_cong) (auto simp: dataField_pair)

lemma count_key:
  "distinct (map fst kvs) \<Longrightarrow> (k, v) \<in> set kvs \<Longrightarrow>
   length (filter (\<lambda>kv. fst kv = k) kvs) = 1"
proof (induction kvs)
  case Nil
  then show ?case by simp
next
  case (Cons kv kvs)
  show ?case
  proof (cases "fst kv = k")
    case True
    with Cons.prems have "k \<notin> fst ` set kvs" by auto
    then have "filter (\<lambda>kv. fst kv = k) kvs = []"
      by (auto simp: filter_empty_conv)
    with True show ?thesis by simp
  next
    case False
    with Cons.prems have "(k, v) \<in> set kvs" by auto
    with Cons have "length (filter (\<lambda>kv. fst kv = k) kvs) = 1" by simp
    with False show ?thesis by simp
  qed
qed

lemma count_name_dataField:
  assumes "distinct (map fst kvs)" and "(k, v) \<in> set kvs"
  shows "length (filter (\<lambda>f. Name f = k) (map dataField kvs)) = 1"
proof -
  have "(\<lambda>f. Name f = k) \<circ> dataField = (\<lambda>kv. fst kv = k)"
    by (simp add: fun_eq_iff dataField_def)
  then have "length (filter (\<lambda>f. Name f = k) (map dataField kvs)) =
      length (filter (\<lambda>kv. fst kv = k) kvs)"
    by (simp add: filter_map)
  then show ?thesis using count_key[OF assms] by simp
qed

lemma fixed_names:
  "k \<notin> set [''User'', ''IP Address'', ''Location'', ''Device''] \<Longrightarrow>
   filter (\<lambda>f. Name f = k) (fixedFields a) = []"
  by (auto simp: fixedFields_def)

subsection \<open>Serialization and the request\<close>

lemma Marshal_finalPayload:
  "Marshal (finalPayload url p) =
     Inr (JObject
       (omitempty ''content'' (Content p = []) (JString (Content p)) @
        (if Contains url ''hooks.slack.com''
         then omitempty ''attachments'' (Embeds p = []) (JArray (map marshalEmbed (Embeds p)))
         else omitempty ''embeds'' (Embeds p = []) (JArray (map marshalEmbed (Embeds p))) @
              omitempty ''attachments'' (Attachments p = [])
                (JArray (map marshalEmbed (Attachments p))))))"
  by (simp add: Marshal_def finalPayload_def omitempty_def)

lemma sendPayload_calls:
  "Marshal (finalPayload url p) = Inr body \<Longrightarrow>
   calls (snd (sendPayload L s url p w)) =
     (if NewRequestError L url = None
      then calls w @ [\<lparr>Method = ''POST'', URL = url, ContentType = ''application/json'',
                       Body = body\<rparr>]
      else calls w)"
  by (auto simp: sendPayload_def Let_def split: option.splits sum.splits)

text \<open>
  The keys of the serialized object, for any payload with an embed, empty content, and
  either a Slack URL or no attachments.
\<close>

lemma payload_keys:
  assumes "Embeds p \<noteq> []" and "Content p = []"
    and "Contains url ''hooks.slack.com'' \<or> Attachments p = []"
  shows "\<exists>body. Marshal (finalPayload url p) = Inr body \<and>
    jsonKeys body =
      (if Contains url ''hooks.slack.com'' then [''attachments''] else [''embeds'']) \<and>
    hasKey ''attachments'' body = Contains url ''hooks.slack.com'' \<and>
    hasKey ''embeds'' body = (\<not> Contains url ''hooks.slack.com'') \<and>
    \<not> hasKey ''content'' body \<and>
    calls (snd (sendPayload L s url p w)) =
      (if NewRequestError L url = None
       then calls w @ [\<lparr>Method = ''POST'', URL = url, ContentType = ''application/json'',
                        Body = body\<rparr>]
       else calls w)"
  using assms
  by (auto simp: sendPayload_calls Marshal_finalPayload omitempty_def hasKey_def jsonKeys_def)

text \<open>
  \<open>SendEvent\<close> always returns, and when it delivers, the requests it leaves are those of
  \<open>sendPayload\<close> for the payload of the event.
\<close>

lemma SendEvent_returns: "\<exists>w'. SendEvent L s a w = Some w'"
  by (simp add: SendEvent_def Let_def eventPayload_eq split: prod.splits option.splits)

lemma SendEvent_calls:
  assumes "WebhookUrl (appConfigService s) \<noteq> []" and "isEventAllowed s (Event a)"
    and "eventPayload L a = Some p" and "SendEvent L s a w = Some w'"
  shows "calls w' = calls (snd (sendPayload L s (WebhookUrl (appConfigService s)) p w))"
  using assms
  by (auto simp: SendEvent_def Let_def split: prod.splits option.splits)

section \<open>The claims\<close>

subsection \<open>C1: the shape of the serialized payload\<close>

text \<open>
  Claim C1. \<open>sendPayload\<close> is unexported and has two callers: \<open>SendTestWebhook\<close> passes the
  test payload and \<open>SendEvent\<close> the payload of the event. For every destination URL and
  each of these payloads, the JSON object \<open>sendPayload\<close> serializes has the key
  \<open>attachments\<close> and no key \<open>embeds\<close> when the URL contains \<open>hooks.slack.com\<close>, and the
  key \<open>embeds\<close> and no key \<open>attachments\<close> for any other URL; the key \<open>content\<close> is
  absent; and this object is the body of the request handed to the HTTP client.
\<close>

theorem C1_serialized_keys:
  "(\<exists>body. Marshal (finalPayload url (testPayload L)) = Inr body \<and>
      jsonKeys body =
        (if Contains url ''hooks.slack.com'' then [''attachments''] else [''embeds'']) \<and>
      hasKey ''attachments'' body = Contains url ''hooks.slack.com'' \<and>
      hasKey ''embeds'' body = (\<not> Contains url ''hooks.slack.com'') \<and>
      \<not> hasKey ''content'' body \<and>
      calls (snd (sendPayload L s url (testPayload L) w)) =
        (if NewRequestError L url = None
         then calls w @ [\<lparr>Method = ''POST'', URL = url, ContentType = ''application/json'',
                          Body = body\<rparr>]
         else calls w)) \<and>
   (\<exists>p body. eventPayload L a = Some p \<and> Marshal (finalPayload url p) = Inr body \<and>
      jsonKeys body =
        (if Contains url ''hooks.slack.com'' then [''attachments''] else [''embeds'']) \<and>
      hasKey ''attachments'' body = Contains url ''hooks.slack.com'' \<and>
      hasKey ''embeds'' body = (\<not> Contains url ''hooks.slack.com'') \<and>
      \<not> hasKey ''content'' body \<and>
      calls (snd (sendPayload L s url p w)) =
        (if NewRequestError L url = None
         then calls w @ [\<lparr>Method = ''POST'', URL = url, ContentType = ''application/json'',
                          Body = body\<rparr>]
         else calls w))"
proof (rule conjI)
  show "\<exists>body. Marshal (finalPayload url (testPayload L)) = Inr body \<and>
      jsonKeys body =
        (if Contains url ''hooks.slack.com'' then [''attachments''] else [''embeds'']) \<and>
      hasKey ''attachments'' body = Contains url ''hooks.slack.com'' \<and>
      hasKey ''embeds'' body = (\<not> Contains url ''hooks.slack.com'') \<and>
      \<not> hasKey ''content'' body \<and>
      calls (snd (sendPayload L s url (testPayload L) w)) =
        (if NewRequestError L url = None
         then calls w @ [\<lparr>Method = ''POST'', URL = url, ContentType = ''application/json'',
                          Body = body\<rparr>]
         else calls w)"
    using testPayload_shape[of L] by (intro payload_keys) simp_all
next
  obtain p where p: "eventPayload L a = Some p" "Embeds p \<noteq> []" "Attachments p = []"
    "Content p = []"
    using eventPayload_shape[of L a] by blast
  have "\<exists>body. Marshal (finalPayload url p) = Inr body \<and>
      jsonKeys body =
        (if Contains url ''hooks.slack.com'' then [''attachments''] else [''embeds'']) \<and>
      hasKey ''attachments'' body = Contains url ''hooks.slack.com'' \<and>
      hasKey ''embeds'' body = (\<not> Contains url ''hooks.slack.com'') \<and>
      \<not> hasKey ''content'' body \<and>
      calls (snd (sendPayload L s url p w)) =
        (if NewRequestError L url = None
         then calls w @ [\<lparr>Method = ''POST'', URL = url, ContentType = ''application/json'',
                          Body = body\<rparr>]
         else calls w)"
    using p by (intro payload_keys) simp_all
  with p(1) show "\<exists>p body. eventPayload L a = Some p \<and> Marshal (finalPayload url p) = Inr body \<and>
      jsonKeys body =
        (if Contains url ''hooks.slack.com'' then [''attachments''] else [''embeds'']) \<and>
      hasKey ''attachments'' body = Contains url ''hooks.slack.com'' \<and>
      hasKey ''embeds'' body = (\<not> Contains url ''hooks.slack.com'') \<and>
      \<not> hasKey ''content'' body \<and>
      calls (snd (sendPayload L s url p w)) =
        (if NewRequestError L url = None
         then calls w @ [\<lparr>Method = ''POST'', URL = url, ContentType = ''application/json'',
                          Body = body\<rparr>]
         else calls w)"
    by blast
qed

theorem C1_witness:
  "(\<exists>body. Marshal (finalPayload ''https://hooks.slack.com/services/T0/B0/key''
       (testPayload plainLib)) = Inr body \<and> jsonKeys body = [''attachments'']) \<and>
   (\<exists>p body. eventPayload plainLib sampleEvent = Some p \<and>
       Marshal (finalPayload ''https://discord.com/api/webhooks/1/key'' p) = Inr body \<and>
       jsonKeys body = [''embeds''])"
proof -
  have slack: "Contains ''https://hooks.slack.com/services/T0/B0/key'' ''hooks.slack.com''"
    by (simp add: Contains_def)
  have discord: "\<not> Contains ''https://discord.com/api/webhooks/1/key'' ''hooks.slack.com''"
    by (simp add: Contains_def)
  from C1_serialized_keys[of "''https://hooks.slack.com/services/T0/B0/key''" plainLib
      "sampleService [] [] 200" quietWorld sampleEvent]
  have a: "\<exists>body. Marshal (finalPayload ''https://hooks.slack.com/services/T0/B0/key''
       (testPayload plainLib)) = Inr body \<and> jsonKeys body = [''attachments'']"
    using slack by auto
  from C1_serialized_keys[of "''https://discord.com/api/webhooks/1/key''" plainLib
      "sampleService [] [] 200" quietWorld sampleEvent]
  have b: "\<exists>p body. eventPayload plainLib sampleEvent = Some p \<and>
       Marshal (finalPayload ''https://discord.com/api/webhooks/1/key'' p) = Inr body \<and>
       jsonKeys body = [''embeds'']"
    using discord by auto
  from a b show ?thesis by (rule conjI)
qed

subsection \<open>C2: the event filter\<close>

text \<open>
  Claim C2. \<open>isEventAllowed\<close> returns true when the configured filter string is empty;
  otherwise it returns true if and only if the event kind is equal, byte for byte, to one
  of the filter's comma-separated entries with its surrounding white space trimmed.
\<close>

theorem C2_isEventAllowed:
  "isEventAllowed s event =
     (WebhookEvents (appConfigService s) = [] \<or>
      (\<exists>entry \<in> set (Split (WebhookEvents (appConfigService s)) CHR '',''). 
         TrimSpace entry = event))"
  by (auto simp: isEventAllowed_def Let_def anyAllowed_iff)

theorem C2_witness:
  "isEventAllowed (sampleService ''u'' [] 200) ''SIGN_IN'' \<and>
   isEventAllowed (sampleService ''u'' ''TOKEN_SIGN_IN, SIGN_IN'' 200) ''SIGN_IN'' \<and>
   \<not> isEventAllowed (sampleService ''u'' ''TOKEN_SIGN_IN'' 200) ''SIGN_IN'' \<and>
   \<not> isEventAllowed (sampleService ''u'' ''sign_in'' 200) ''SIGN_IN''"
  using C2_isEventAllowed[of "sampleService ''u'' [] 200" "''SIGN_IN''"]
    C2_isEventAllowed[of "sampleService ''u'' ''TOKEN_SIGN_IN, SIGN_IN'' 200" "''SIGN_IN''"]
    C2_isEventAllowed[of "sampleService ''u'' ''TOKEN_SIGN_IN'' 200" "''SIGN_IN''"]
    C2_isEventAllowed[of "sampleService ''u'' ''sign_in'' 200" "''SIGN_IN''"]
  by (simp add: sampleService_def Split_examples TrimSpace_examples)

subsection \<open>C3: the Location field\<close>

text \<open>
  Claim C3, as amended. In the payload \<open>SendEvent\<close> builds, the third field is the one
  named \<open>Location\<close>, and its value is \<open>valueOrDash (formatLocation country city)\<close>: the
  result of \<open>formatLocation\<close> when country or city is non-empty, and the placeholder
  \<open>-\<close> when both are empty.
\<close>

theorem C3_location_field:
  "\<exists>p e. eventPayload L a = Some p \<and> Embeds p = [e] \<and>
     Fields e ! 2 =
       \<lparr>Name = ''Location'', Value = valueOrDash (formatLocation (Country a) (City a)),
        Inline = True\<rparr> \<and>
     find (\<lambda>f. Name f = ''Location'') (Fields e) = Some (Fields e ! 2) \<and>
     (Country a \<noteq> [] \<or> City a \<noteq> [] \<longrightarrow>
        Value (Fields e ! 2) = formatLocation (Country a) (City a)) \<and>
     (Country a = [] \<and> City a = [] \<longrightarrow> Value (Fields e ! 2) = ''-'')"
  by (auto simp: eventPayload_eq fixedFields_def formatLocation_def valueOrDash_def)

theorem C3_witness:
  "\<exists>p e. eventPayload plainLib sampleEvent = Some p \<and> Embeds p = [e] \<and>
     Fields e ! 2 = \<lparr>Name = ''Location'', Value = ''Paris, US'', Inline = True\<rparr>"
proof -
  from C3_location_field[of plainLib sampleEvent] obtain p e where
    "eventPayload plainLib sampleEvent = Some p" "Embeds p = [e]"
    "Fields e ! 2 =
       \<lparr>Name = ''Location'',
        Value = valueOrDash (formatLocation (Country sampleEvent) (City sampleEvent)),
        Inline = True\<rparr>"
    by blast
  then show ?thesis
    by (simp add: sampleEvent_def formatLocation_def valueOrDash_def)
qed

text \<open>
  The claim as stated fails when country and city are both empty: \<open>formatLocation\<close>
  gives the empty string and the field holds the dash.
\<close>

theorem C3_counterexample:
  "formatLocation (Country blankEvent) (City blankEvent) = [] \<and>
   Name (eventFields plainLib blankEvent ! 2) = ''Location'' \<and>
   Value (eventFields plainLib blankEvent ! 2) = ''-'' \<and>
   Value (eventFields plainLib blankEvent ! 2) \<noteq>
     formatLocation (Country blankEvent) (City blankEvent)"
  by (simp add: eventFields_eq fixedFields_def blankEvent_def formatLocation_def valueOrDash_def)

subsection \<open>C4: the status of the test webhook\<close>

text \<open>
  Claim C4. Whenever \<open>SendTestWebhook\<close> has handed a request to the HTTP client and the
  destination has answered it, the call returns no error if and only if the status of the
  response lies in 200 to 299; for any other status it returns the error that carries
  the status code, whose text ends with the code in decimal digits.
\<close>

theorem C4_test_status:
  assumes "SendTestWebhook L s w = (r, w')"
    and "calls w' = calls w @ [req]"
    and "httpClient s req = Inr resp"
  shows "(r = None) = (200 \<le> StatusCode resp \<and> StatusCode resp \<le> 299) \<and>
    (\<not> (200 \<le> StatusCode resp \<and> StatusCode resp \<le> 299) \<longrightarrow>
       r = Some (NonSuccessStatus (StatusCode resp)) \<and>
       errorString (NonSuccessStatus (StatusCode resp)) =
         ''webhook returned non-success status: '' @ itoa (StatusCode resp))"
  using assms
  by (auto simp: SendTestWebhook_def sendPayload_def Marshal_def Let_def
      split: if_splits option.splits sum.splits)

theorem C4_witness:
  "SendTestWebhook plainLib (sampleService ''https://discord.com/api/webhooks/1/key'' [] 500)
      quietWorld =
     (Some (NonSuccessStatus 500),
      \<lparr>calls = [\<lparr>Method = ''POST'', URL = ''https://discord.com/api/webhooks/1/key'',
                  ContentType = ''application/json'',
                  Body = JObject [(''embeds'', JArray (map marshalEmbed (Embeds (testPayload plainLib))))]\<rparr>],
       logs = []\<rparr>) \<and>
   errorString (NonSuccessStatus 500) = ''webhook returned non-success status: 500'' \<and>
   fst (SendTestWebhook plainLib (sampleService ''https://discord.com/api/webhooks/1/key'' [] 204)
      quietWorld) = None"
proof -
  let ?url = "''https://discord.com/api/webhooks/1/key''"
  let ?req = "\<lparr>Method = ''POST'', URL = ?url, ContentType = ''application/json'',
      Body = JObject [(''embeds'', JArray (map marshalEmbed (Embeds (testPayload plainLib))))]\<rparr>"
  let ?w = "\<lparr>calls = [?req], logs = []\<rparr>"
  have nc: "\<not> Contains ?url ''hooks.slack.com''" by (simp add: Contains_def)
  have run: "SendTestWebhook plainLib (sampleService ?url [] code) quietWorld =
      (if code < 200 \<or> code \<ge> 300 then Some (NonSuccessStatus code) else None, ?w)" for code
    using nc
    by (simp add: SendTestWebhook_def sendPayload_def Marshal_def finalPayload_def omitempty_def
        sampleService_def plainLib_def quietWorld_def testPayload_def Let_def)
  have c: "calls ?w = calls quietWorld @ [?req]" by (simp add: quietWorld_def)
  have d: "httpClient (sampleService ?url [] code) ?req = Inr \<lparr>StatusCode = code\<rparr>" for code
    by (simp add: sampleService_def)
  from C4_test_status[OF run[of 500] c d[of 500]] C4_test_status[OF run[of 204] c d[of 204]]
  show ?thesis by (simp add: run itoa_examples)
qed

subsection \<open>C5: the test webhook without a destination\<close>

text \<open>
  Claim C5. When the configured destination URL is empty, \<open>SendTestWebhook\<close> returns the
  error "webhook URL is not configured" and leaves the world as it was: no request is
  handed to the HTTP client.
\<close>

theorem C5_test_not_configured:
  "WebhookUrl (appConfigService s) = [] \<Longrightarrow>
   SendTestWebhook L s w = (Some NotConfigured, w) \<and>
   errorString NotConfigured = ''webhook URL is not configured''"
  by (simp add: SendTestWebhook_def)

theorem C5_witness:
  "WebhookUrl (appConfigService (sampleService [] [] 200)) = [] \<and>
   SendTestWebhook plainLib (sampleService [] [] 200) quietWorld = (Some NotConfigured, quietWorld) \<and>
   calls (snd (SendTestWebhook plainLib (sampleService [] [] 200) quietWorld)) = []"
proof -
  have h: "WebhookUrl (appConfigService (sampleService [] [] 200)) = []"
    by (simp add: sampleService_def)
  from C5_test_not_configured[OF h, of plainLib quietWorld] h show ?thesis
    by (simp add: quietWorld_def)
qed

subsection \<open>C6: events that are not delivered\<close>

text \<open>
  Claim C6. When the configured destination URL is empty, or when \<open>isEventAllowed\<close>
  rejects the kind of the event, \<open>SendEvent\<close> returns with the world as it was: no
  request is handed to the HTTP client and no error is logged.
\<close>

theorem C6_event_noop:
  "WebhookUrl (appConfigService s) = [] \<or> \<not> isEventAllowed s (Event a) \<Longrightarrow>
   SendEvent L s a w = Some w"
  by (auto simp: SendEvent_def Let_def)

theorem C6_witness:
  "WebhookUrl (appConfigService (sampleService [] [] 200)) = [] \<and>
   SendEvent plainLib (sampleService [] [] 200) sampleEvent quietWorld = Some quietWorld \<and>
   \<not> isEventAllowed (sampleService ''https://discord.com/api/webhooks/1/key'' ''TOKEN_SIGN_IN'' 200)
      (Event blankEvent) \<and>
   SendEvent plainLib (sampleService ''https://discord.com/api/webhooks/1/key'' ''TOKEN_SIGN_IN'' 200)
      blankEvent quietWorld = Some quietWorld"
proof -
  have h1: "WebhookUrl (appConfigService (sampleService [] [] 200)) = []"
    by (simp add: sampleService_def)
  have h2: "\<not> isEventAllowed
      (sampleService ''https://discord.com/api/webhooks/1/key'' ''TOKEN_SIGN_IN'' 200)
      (Event blankEvent)"
    by (simp add: isEventAllowed_def Let_def sampleService_def blankEvent_def Split_examples
        TrimSpace_examples)
  from C6_event_noop[of "sampleService [] [] 200" sampleEvent plainLib quietWorld]
    C6_event_noop[of "sampleService ''https://discord.com/api/webhooks/1/key'' ''TOKEN_SIGN_IN'' 200"
      blankEvent plainLib quietWorld] h1 h2
  show ?thesis by simp
qed

subsection \<open>C7: the title of an event\<close>

text \<open>
  Claim C7. \<open>formatEventTitle\<close> splits the event kind at the underscores, puts the first
  byte of each word in upper case and the rest in lower case, and joins the words with one
  space between neighbours; an empty word stays empty. For an event kind of ASCII bytes
  the case mapping is that of the bytes \<open>a..z\<close> and \<open>A..Z\<close>. \<open>SIGN_IN\<close> becomes
  \<open>Sign In\<close> and \<open>NEW_CLIENT_AUTHORIZATION\<close> becomes \<open>New Client Authorization\<close>.
\<close>

theorem C7_formatEventTitle:
  "formatEventTitle U event = Join (map (capitalizeWord U) (Split event CHR ''_'')) '' '' \<and>
   (isASCII event \<longrightarrow>
      formatEventTitle U event = Join (map capitalizeASCII (Split event CHR ''_'')) '' '') \<and>
   capitalizeWord U [] = [] \<and>
   formatEventTitle U ''SIGN_IN'' = ''Sign In'' \<and>
   formatEventTitle U ''NEW_CLIENT_AUTHORIZATION'' = ''New Client Authorization''"
  by (simp add: formatEventTitle_eq[symmetric] formatEventTitle_ASCII title_examples)

theorem C7_witness:
  "isASCII ''sign__in_'' \<and> formatEventTitle plainLib ''sign__in_'' = ''Sign  In ''"
proof -
  have a: "isASCII ''sign__in_''" by code_simp
  from C7_formatEventTitle[of plainLib "''sign__in_''"] a
  have "formatEventTitle plainLib ''sign__in_'' =
      Join (map capitalizeASCII (Split ''sign__in_'' CHR ''_'')) '' ''"
    by blast
  then have "formatEventTitle plainLib ''sign__in_'' = ''Sign  In ''"
    by (simp only: title_gap)
  with a show ?thesis by (rule conjI)
qed

subsection \<open>C8: the extra attributes\<close>

text \<open>
  Claim C8. For an audit log entry whose \<open>Data\<close> is a map (distinct keys), in whatever
  order \<open>range\<close> yields its entries: the payload \<open>SendEvent\<close> builds has one embed; its
  first four fields are User, IP Address, Location and Device; the fields after them are
  one per entry, in the order of the iteration, with the key as name, the value or the
  dash for an empty value, and the inline hint set. So each entry \<open>(k, v)\<close> has exactly
  one field named \<open>k\<close> among them, and that field is there; when \<open>k\<close> is not the name of
  a fixed field, it is the only field of that name in the whole payload.
\<close>

theorem C8_extra_attributes:
  assumes "distinct (map fst (Data a))"
  shows "\<exists>p e. eventPayload L a = Some p \<and> Embeds p = [e] \<and>
    map Name (take 4 (Fields e)) = [''User'', ''IP Address'', ''Location'', ''Device''] \<and>
    drop 4 (Fields e) =
      map (\<lambda>(k, v). \<lparr>Name = k, Value = (if v = [] then ''-'' else v), Inline = True\<rparr>)
        (Data a) \<and>
    (\<forall>(k, v) \<in> set (Data a).
       length (filter (\<lambda>f. Name f = k) (drop 4 (Fields e))) = 1 \<and>
       \<lparr>Name = k, Value = (if v = [] then ''-'' else v), Inline = True\<rparr>
         \<in> set (drop 4 (Fields e)) \<and>
       (k \<notin> set [''User'', ''IP Address'', ''Location'', ''Device''] \<longrightarrow>
          length (filter (\<lambda>f. Name f = k) (Fields e)) = 1))"
proof -
  define e where "e = \<lparr>Title = formatEventTitle L (Event a), Color = 5814783,
      Fields = fixedFields a @ map dataField (Data a),
      Timestamp = FormatRFC3339 L (CreatedAt a)\<rparr>"
  have p: "eventPayload L a = Some \<lparr>Content = [], Embeds = [e], Attachments = []\<rparr>"
    by (simp add: eventPayload_eq e_def)
  have len: "length (fixedFields a) = 4" by (simp add: fixedFields_def)
  have fe: "Fields e = fixedFields a @ map dataField (Data a)" by (simp add: e_def)
  have dr0: "drop 4 (Fields e) = map dataField (Data a)" using len by (simp add: e_def)
  have tk: "take 4 (Fields e) = fixedFields a" using len by (simp add: e_def)
  have names: "map Name (take 4 (Fields e)) = [''User'', ''IP Address'', ''Location'', ''Device'']"
    unfolding tk by (simp add: fixedFields_def)
  have dr: "drop 4 (Fields e) =
      map (\<lambda>(k, v). \<lparr>Name = k, Value = (if v = [] then ''-'' else v), Inline = True\<rparr>)
        (Data a)"
    unfolding dr0 by (rule dataField_split)
  have each: "\<forall>(k, v) \<in> set (Data a).
       length (filter (\<lambda>f. Name f = k) (drop 4 (Fields e))) = 1 \<and>
       \<lparr>Name = k, Value = (if v = [] then ''-'' else v), Inline = True\<rparr>
         \<in> set (drop 4 (Fields e)) \<and>
       (k \<notin> set [''User'', ''IP Address'', ''Location'', ''Device''] \<longrightarrow>
          length (filter (\<lambda>f. Name f = k) (Fields e)) = 1)"
  proof (intro ballI, clarify, intro conjI impI)
    fix k v assume kv: "(k, v) \<in> set (Data a)"
    show one: "length (filter (\<lambda>f. Name f = k) (drop 4 (Fields e))) = 1"
      unfolding dr0 using assms kv by (rule count_name_dataField)
    have "dataField (k, v) \<in> set (map dataField (Data a))" using kv by simp
    then show "\<lparr>Name = k, Value = (if v = [] then ''-'' else v), Inline = True\<rparr>
        \<in> set (drop 4 (Fields e))"
      unfolding dr0 by (simp only: dataField_pair)
    assume "k \<notin> set [''User'', ''IP Address'', ''Location'', ''Device'']"
    then have "filter (\<lambda>f. Name f = k) (fixedFields a) = []" by (rule fixed_names)
    then have "filter (\<lambda>f. Name f = k) (Fields e) =
        filter (\<lambda>f. Name f = k) (map dataField (Data a))"
      unfolding fe by simp
    then show "length (filter (\<lambda>f. Name f = k) (Fields e)) = 1"
      using one unfolding dr0 by simp
  qed
  show ?thesis
  proof (intro exI conjI)
    show "eventPayload L a = Some \<lparr>Content = [], Embeds = [e], Attachments = []\<rparr>"
      by (rule p)
    show "Embeds \<lparr>Content = [], Embeds = [e], Attachments = []\<rparr> = [e]" by simp
  qed (rule names dr each)+
qed

theorem C8_witness:
  "distinct (map fst (Data sampleEvent)) \<and>
   (\<exists>p e. eventPayload plainLib sampleEvent = Some p \<and> Embeds p = [e] \<and>
      drop 4 (Fields e) =
        [\<lparr>Name = ''clientName'', Value = ''Wiki'', Inline = True\<rparr>,
         \<lparr>Name = ''scope'', Value = ''-'', Inline = True\<rparr>])"
proof -
  have h: "distinct (map fst (Data sampleEvent))" by (simp add: sampleEvent_def)
  from C8_extra_attributes[OF h, of plainLib] obtain p e where
    "eventPayload plainLib sampleEvent = Some p" "Embeds p = [e]"
    "drop 4 (Fields e) =
      map (\<lambda>(k, v). \<lparr>Name = k, Value = (if v = [] then ''-'' else v), Inline = True\<rparr>)
        (Data sampleEvent)"
    by blast
  then show ?thesis using h by (simp add: sampleEvent_def)
qed

subsection \<open>C9: detection by substring\<close>

text \<open>
  Claim C9. Whether the payload is reshaped for Slack depends only on whether
  \<open>hooks.slack.com\<close> occurs somewhere in the URL string. The URL
  \<open>https://example.com/relay?target=hooks.slack.com\<close> has the host \<open>example.com\<close>, which
  is no Slack host, and its query contains the substring: the test payload for it is
  serialized under the key \<open>attachments\<close>.
\<close>

theorem C9_substring_anywhere:
  "finalPayload url p =
     (if \<exists>a b. url = a @ ''hooks.slack.com'' @ b
      then p\<lparr>Attachments := Embeds p, Embeds := []\<rparr> else p) \<and>
   urlHost ''https://example.com/relay?target=hooks.slack.com'' = ''example.com'' \<and>
   \<not> Contains (urlHost ''https://example.com/relay?target=hooks.slack.com'') ''hooks.slack.com'' \<and>
   Contains ''https://example.com/relay?target=hooks.slack.com'' ''hooks.slack.com'' \<and>
   Marshal (finalPayload ''https://example.com/relay?target=hooks.slack.com'' (testPayload L)) =
     Inr (JObject [(''attachments'', JArray (map marshalEmbed (Embeds (testPayload L))))])"
proof -
  have h: "urlHost ''https://example.com/relay?target=hooks.slack.com'' = ''example.com''"
    by (simp add: urlHost_def)
  have n: "\<not> Contains ''example.com'' ''hooks.slack.com''"
    by (simp add: Contains_def)
  have c: "Contains ''https://example.com/relay?target=hooks.slack.com'' ''hooks.slack.com''"
    by (simp add: Contains_def)
  have g: "finalPayload url p =
     (if \<exists>a b. url = a @ ''hooks.slack.com'' @ b
      then p\<lparr>Attachments := Embeds p, Embeds := []\<rparr> else p)"
    unfolding finalPayload_def Contains_iff ..
  have m: "Marshal (finalPayload ''https://example.com/relay?target=hooks.slack.com'' (testPayload L)) =
     Inr (JObject [(''attachments'', JArray (map marshalEmbed (Embeds (testPayload L))))])"
    using c by (simp add: Marshal_finalPayload omitempty_def testPayload_def)
  from g h n c m show ?thesis by (simp only: simp_thms)
qed

theorem C9_witness:
  "\<exists>body. Marshal (finalPayload ''https://example.com/relay?target=hooks.slack.com''
       (testPayload plainLib)) = Inr body \<and> jsonKeys body = [''attachments'']"
proof -
  from C9_substring_anywhere[of "''https://example.com/relay?target=hooks.slack.com''"
      "testPayload plainLib" plainLib]
  have m: "Marshal (finalPayload ''https://example.com/relay?target=hooks.slack.com''
       (testPayload plainLib)) =
     Inr (JObject [(''attachments'', JArray (map marshalEmbed (Embeds (testPayload plainLib))))])"
    by (elim conjE)
  show ?thesis unfolding m by (simp add: jsonKeys_def)
qed

subsection \<open>C10: no field with an empty value\<close>

text \<open>
  Claim C10. For every audit log entry the payload \<open>SendEvent\<close> builds exists, and every
  field of it has a non-empty value that is a result of \<open>valueOrDash\<close>, which maps the
  empty string to the dash and every other string to itself.
\<close>

theorem C10_no_empty_value:
  "\<exists>p. eventPayload L a = Some p \<and>
     (\<forall>e \<in> set (Embeds p). \<forall>f \<in> set (Fields e).
        Value f \<noteq> [] \<and> (\<exists>v. Value f = valueOrDash v)) \<and>
     valueOrDash [] = ''-'' \<and> (\<forall>v. v \<noteq> [] \<longrightarrow> valueOrDash v = v)"
proof -
  have nonempty: "valueOrDash v \<noteq> []" for v by (simp add: valueOrDash_def)
  have fixed: "\<forall>f \<in> set (fixedFields a). \<exists>v. Value f = valueOrDash v"
    by (auto simp: fixedFields_def)
  have extra: "\<forall>f \<in> set (map dataField (Data a)). \<exists>v. Value f = valueOrDash v"
    by (auto simp: dataField_def)
  have "\<forall>f \<in> set (fixedFields a @ map dataField (Data a)).
      Value f \<noteq> [] \<and> (\<exists>v. Value f = valueOrDash v)"
    using fixed extra nonempty by (metis Un_iff set_append)
  then show ?thesis
    by (simp add: eventPayload_eq valueOrDash_def)
qed

theorem C10_witness:
  "\<exists>p. eventPayload plainLib sampleEvent = Some p \<and>
     map Value (concat (map Fields (Embeds p))) =
       [''alice'', ''203.0.113.7'', ''Paris, US'', ''-'', ''Wiki'', ''-'']"
proof -
  from C10_no_empty_value[of plainLib sampleEvent] obtain p where
    "eventPayload plainLib sampleEvent = Some p" by blast
  then show ?thesis
    by (auto simp: eventPayload_eq fixedFields_def dataField_def sampleEvent_def
        valueOrDash_def formatLocation_def)
qed

end
